theory Spec2Isabelle
  imports Main
begin

section \<open>The severity gate of package minsev\<close>

text \<open>
  The source is \<^verbatim>\<open>processors/minsev/minsev.go\<close>: a \<^verbatim>\<open>LogProcessor\<close> wraps a downstream
  \<^verbatim>\<open>log.Processor\<close> and lets a record or an enablement query through only when its severity
  is at least the level its \<^verbatim>\<open>Severitier\<close> reports.

  The gate is a struct reached through a pointer, its collaborators are interface values
  with effects of their own. The model therefore passes a state explicitly: the struct of
  the receiver, the list of calls the gate has made on its collaborators so far, and the
  state of everything outside the gate (the collaborators' world).
\<close>

subsection \<open>Data of the logging SDK\<close>

text \<open>
  \<^verbatim>\<open>log.Severity\<close> is a Go \<^verbatim>\<open>int\<close>. The gate only compares severities, it never computes
  with them, so no wrap-around can occur and the mathematical integers are exact.
\<close>

type_synonym Severity = int

text \<open>
  Go's \<^verbatim>\<open>error\<close>: \<^verbatim>\<open>nil\<close> is \<open>None\<close>, an error value is its message.
\<close>

type_synonym error = "string option"

text \<open>
  A \<^verbatim>\<open>log.Record\<close> and a \<^verbatim>\<open>log.EnabledParameters\<close>. The gate reads nothing but the
  severity of either; one further field stands for the rest of the content, which the
  gate hands on untouched.
\<close>

record log_Record =
  severity :: Severity
  body :: string

record log_EnabledParameters =
  Severity :: Severity
  EventName :: string

subsection \<open>Panics\<close>

text \<open>
  The run-time failures of the gate's own code are the dereferences of a nil pointer or
  nil interface: of the record (\<^verbatim>\<open>record.Severity()\<close>), of the provider
  (\<^verbatim>\<open>p.sev.Severity()\<close>) and of the embedded sink (\<^verbatim>\<open>p.Processor.OnEmit\<close>, and the
  promoted \<^verbatim>\<open>Shutdown\<close> and \<^verbatim>\<open>ForceFlush\<close>). A collaborator may panic as well, with a
  value of its own type \<open>'x\<close>; the gate recovers from nothing, so that panic passes
  through it as \<open>Raised\<close>.
\<close>

datatype 'x panic = NilRecord | NilSeveritier | NilProcessor | Raised 'x

subsection \<open>Interfaces\<close>

text \<open>
  A method of a collaborator runs on the world \<open>'s\<close> and either panics or returns a value
  and the world it leaves. An interface value is \<open>None\<close> when it is nil.

  \<^item> \<^verbatim>\<open>Severitier\<close> has the one method \<^verbatim>\<open>Severity()\<close>.
  \<^item> \<^verbatim>\<open>log.FilterProcessor\<close> has the one method \<^verbatim>\<open>Enabled(ctx, param)\<close>.
  \<^item> \<^verbatim>\<open>log.Processor\<close> has \<^verbatim>\<open>OnEmit\<close>, \<^verbatim>\<open>Shutdown\<close> and \<^verbatim>\<open>ForceFlush\<close>. The concrete
    type behind the interface may have an \<^verbatim>\<open>Enabled\<close> method too: \<open>p_Enabled\<close> is what
    the type assertion \<^verbatim>\<open>downstream.(log.FilterProcessor)\<close> finds.
  The record is passed as the pointer it is (\<open>None\<close> for nil), the context \<open>'c\<close> is opaque.
\<close>

type_synonym ('x, 's) Severitier = "'s \<Rightarrow> 'x + (Severity \<times> 's)"

type_synonym ('c, 'x, 's) log_FilterProcessor =
  "'c \<Rightarrow> log_EnabledParameters \<Rightarrow> 's \<Rightarrow> 'x + (bool \<times> 's)"

record ('c, 'x, 's) log_Processor =
  p_OnEmit :: "'c \<Rightarrow> log_Record option \<Rightarrow> 's \<Rightarrow> 'x + (error \<times> 's)"
  p_Shutdown :: "'c \<Rightarrow> 's \<Rightarrow> 'x + (error \<times> 's)"
  p_ForceFlush :: "'c \<Rightarrow> 's \<Rightarrow> 'x + (error \<times> 's)"
  p_Enabled :: "('c, 'x, 's) log_FilterProcessor option"

subsection \<open>The gate and its state\<close>

text \<open>
  \<^verbatim>\<open>type LogProcessor struct { log.Processor; filter log.FilterProcessor; sev Severitier }\<close>
  The field \<^verbatim>\<open>filter\<close> is \<open>filter_p\<close> here, \<open>filter\<close> being a constant of HOL.
\<close>

record ('c, 'x, 's) LogProcessor =
  Processor :: "('c, 'x, 's) log_Processor option"
  filter_p :: "('c, 'x, 's) log_FilterProcessor option"
  sev :: "('x, 's) Severitier option"

text \<open>The calls a gate makes on its collaborators, with their arguments.\<close>

datatype 'c call =
    SeverityCall
  | OnEmitCall 'c "log_Record option"
  | EnabledCall 'c log_EnabledParameters
  | ShutdownCall 'c
  | ForceFlushCall 'c

text \<open>
  The state a method of the gate runs on: \<open>gate\<close> is the struct the receiver \<^verbatim>\<open>p\<close> points
  to, \<open>calls\<close> the calls made so far (oldest first), \<open>world\<close> the collaborators' state.
\<close>

record ('c, 'x, 's) pstate =
  gate :: "('c, 'x, 's) LogProcessor"
  calls :: "'c call list"
  world :: 's

text \<open>
  Calling a method \<open>f\<close> of a collaborator: the call is recorded, the collaborator's
  value is returned and its world kept; its panic is passed on.
\<close>

definition invoke ::
  "'c call \<Rightarrow> ('s \<Rightarrow> 'x + ('a \<times> 's)) \<Rightarrow> ('c, 'x, 's) pstate
     \<Rightarrow> 'x panic + ('a \<times> ('c, 'x, 's) pstate)" where
  "invoke c f st =
     (case f (world st) of
        Inl x \<Rightarrow> Inl (Raised x)
      | Inr (v, w) \<Rightarrow> Inr (v, st\<lparr>calls := calls st @ [c], world := w\<rparr>))"

subsection \<open>The no-op sink\<close>

text \<open>
  \<^verbatim>\<open>type noopProcessor struct{}\<close> with its four methods, and
  \<^verbatim>\<open>var defaultProcessor = noopProcessor{}\<close>. It has an \<^verbatim>\<open>Enabled\<close> method, so it is
  a \<^verbatim>\<open>log.FilterProcessor\<close>.
\<close>

definition noopProcessor :: "('c, 'x, 's) log_Processor" where
  "noopProcessor =
     \<lparr> p_OnEmit = (\<lambda>ctx record w. Inr (None, w)),
       p_Shutdown = (\<lambda>ctx w. Inr (None, w)),
       p_ForceFlush = (\<lambda>ctx w. Inr (None, w)),
       p_Enabled = Some (\<lambda>ctx param w. Inr (False, w)) \<rparr>"

definition defaultProcessor :: "('c, 'x, 's) log_Processor" where
  "defaultProcessor = noopProcessor"

subsection \<open>The default provider\<close>

text \<open>
  Modelled from the spec: the constant \<^verbatim>\<open>SeverityInfo\<close> and its method \<^verbatim>\<open>Severity()\<close> are
  declared in another file of the package, which is not among the sources. The spec
  describes it as "a fixed provider returning the informational severity level". The
  number of that level is not given either; it is the parameter \<open>info\<close>.
\<close>

definition SeverityInfo :: "Severity \<Rightarrow> ('x, 's) Severitier" where
  "SeverityInfo info = (\<lambda>w. Inr (info, w))"

subsection \<open>The factory\<close>

text \<open>
  \<^verbatim>\<open>func NewLogProcessor(downstream log.Processor, severity Severitier) *LogProcessor\<close>.
  Both arguments are interface values and may be nil. The result is the new struct; a
  caller puts it into a state to call its methods.
\<close>

definition NewLogProcessor ::
  "Severity \<Rightarrow> ('c, 'x, 's) log_Processor option \<Rightarrow> ('x, 's) Severitier option
     \<Rightarrow> ('c, 'x, 's) LogProcessor" where
  "NewLogProcessor info downstream0 severity0 =
     (let downstream = (case downstream0 of None \<Rightarrow> defaultProcessor | Some d \<Rightarrow> d);
          severity = (case severity0 of None \<Rightarrow> SeverityInfo info | Some s \<Rightarrow> s);
          p = \<lparr> Processor = Some downstream, filter_p = None, sev = Some severity \<rparr>
      in case p_Enabled downstream of
           Some fp \<Rightarrow> p\<lparr>filter_p := Some fp\<rparr>
         | None \<Rightarrow> p)"

subsection \<open>The methods\<close>

text \<open>
  \<^verbatim>\<open>func (p *LogProcessor) OnEmit(ctx context.Context, record *log.Record) error\<close>.
  Go evaluates the operands of \<^verbatim>\<open>>=\<close> from left to right: the record is read first,
  then the provider is called.
\<close>

definition OnEmit ::
  "'c \<Rightarrow> log_Record option \<Rightarrow> ('c, 'x, 's) pstate
     \<Rightarrow> 'x panic + (error \<times> ('c, 'x, 's) pstate)" where
  "OnEmit ctx record st =
     (case record of
        None \<Rightarrow> Inl NilRecord
      | Some r \<Rightarrow>
          (case sev (gate st) of
             None \<Rightarrow> Inl NilSeveritier
           | Some s \<Rightarrow>
               (case invoke SeverityCall s st of
                  Inl e \<Rightarrow> Inl e
                | Inr (minimum, st1) \<Rightarrow>
                    if severity r \<ge> minimum then
                      (case Processor (gate st1) of
                         None \<Rightarrow> Inl NilProcessor
                       | Some d \<Rightarrow> invoke (OnEmitCall ctx record) (p_OnEmit d ctx record) st1)
                    else Inr (None, st1))))"

text \<open>
  \<^verbatim>\<open>func (p *LogProcessor) Enabled(ctx context.Context, param log.EnabledParameters) bool\<close>.
  The right operand of \<^verbatim>\<open>&&\<close> is evaluated only when the left one is true. The
  first branch is \<^verbatim>\<open>p.filter != nil\<close>, with \<open>f\<close> the filter found there.
\<close>

definition Enabled ::
  "'c \<Rightarrow> log_EnabledParameters \<Rightarrow> ('c, 'x, 's) pstate
     \<Rightarrow> 'x panic + (bool \<times> ('c, 'x, 's) pstate)" where
  "Enabled ctx param st =
     (let sv = Severity param in
      case filter_p (gate st) of
        Some f \<Rightarrow>
          (case sev (gate st) of
             None \<Rightarrow> Inl NilSeveritier
           | Some s \<Rightarrow>
               (case invoke SeverityCall s st of
                  Inl e \<Rightarrow> Inl e
                | Inr (minimum, st1) \<Rightarrow>
                    if sv \<ge> minimum
                    then invoke (EnabledCall ctx param) (f ctx param) st1
                    else Inr (False, st1)))
      | None \<Rightarrow>
          (case sev (gate st) of
             None \<Rightarrow> Inl NilSeveritier
           | Some s \<Rightarrow>
               (case invoke SeverityCall s st of
                  Inl e \<Rightarrow> Inl e
                | Inr (minimum, st1) \<Rightarrow> Inr (sv \<ge> minimum, st1))))"

text \<open>
  \<^verbatim>\<open>Shutdown\<close> and \<^verbatim>\<open>ForceFlush\<close> are not written in the source: they are the methods of
  the embedded field \<^verbatim>\<open>log.Processor\<close>, promoted to the struct. \<^verbatim>\<open>p.Shutdown(ctx)\<close> is
  \<^verbatim>\<open>p.Processor.Shutdown(ctx)\<close>.
\<close>

definition Shutdown ::
  "'c \<Rightarrow> ('c, 'x, 's) pstate \<Rightarrow> 'x panic + (error \<times> ('c, 'x, 's) pstate)" where
  "Shutdown ctx st =
     (case Processor (gate st) of
        None \<Rightarrow> Inl NilProcessor
      | Some d \<Rightarrow> invoke (ShutdownCall ctx) (p_Shutdown d ctx) st)"

definition ForceFlush ::
  "'c \<Rightarrow> ('c, 'x, 's) pstate \<Rightarrow> 'x panic + (error \<times> ('c, 'x, 's) pstate)" where
  "ForceFlush ctx st =
     (case Processor (gate st) of
        None \<Rightarrow> Inl NilProcessor
      | Some d \<Rightarrow> invoke (ForceFlushCall ctx) (p_ForceFlush d ctx) st)"

text \<open>
  The compile-time assertions
  \<^verbatim>\<open>var _ log.Processor = (*LogProcessor)(nil)\<close> and
  \<^verbatim>\<open>var _ log.FilterProcessor = (*LogProcessor)(nil)\<close>:
  a gate is itself a sink, with the four methods above as its method set. Its world is
  the state of the gate, its panics are the gate's.
\<close>

definition LogProcessor_methods ::
  "('c, 'x panic, ('c, 'x, 's) pstate) log_Processor" where
  "LogProcessor_methods =
     \<lparr> p_OnEmit = OnEmit,
       p_Shutdown = Shutdown,
       p_ForceFlush = ForceFlush,
       p_Enabled = Some Enabled \<rparr>"

subsection \<open>Callers\<close>

text \<open>
  What a caller may do with a gate, one step at a time: call one of its four methods, or
  (as any other part of the program may) change the world outside the gate, for instance
  set a new level in a dynamic provider. A sequence of steps stops at the first panic.
\<close>

datatype ('c, 's) op =
    EmitOp 'c "log_Record option"
  | EnabledOp 'c log_EnabledParameters
  | ShutdownOp 'c
  | ForceFlushOp 'c
  | OutsideOp "'s \<Rightarrow> 's"

fun step :: "('c, 's) op \<Rightarrow> ('c, 'x, 's) pstate \<Rightarrow> 'x panic + ('c, 'x, 's) pstate" where
  "step (EmitOp ctx record) st =
     (case OnEmit ctx record st of Inl e \<Rightarrow> Inl e | Inr (err, st') \<Rightarrow> Inr st')"
| "step (EnabledOp ctx param) st =
     (case Enabled ctx param st of Inl e \<Rightarrow> Inl e | Inr (b, st') \<Rightarrow> Inr st')"
| "step (ShutdownOp ctx) st =
     (case Shutdown ctx st of Inl e \<Rightarrow> Inl e | Inr (err, st') \<Rightarrow> Inr st')"
| "step (ForceFlushOp ctx) st =
     (case ForceFlush ctx st of Inl e \<Rightarrow> Inl e | Inr (err, st') \<Rightarrow> Inr st')"
| "step (OutsideOp f) st = Inr (st\<lparr>world := f (world st)\<rparr>)"

fun run :: "('c, 's) op list \<Rightarrow> ('c, 'x, 's) pstate \<Rightarrow> 'x panic + ('c, 'x, 's) pstate" where
  "run [] st = Inr st"
| "run (x # xs) st = (case step x st of Inl e \<Rightarrow> Inl e | Inr st' \<Rightarrow> run xs st')"

subsection \<open>Collaborators to run the gate with\<close>

text \<open>
  A small world for concrete runs: a level that can be set from outside, and the records
  a sink has received (newest last). \<open>var_Severity\<close> is a dynamic provider reading the
  level; \<open>recorder\<close> is a sink without an \<^verbatim>\<open>Enabled\<close> method that stores what it is given
  and reports an error for a record with an empty body; \<open>named_only\<close> is the same sink
  with an \<^verbatim>\<open>Enabled\<close> method that accepts queries with an event name.
\<close>

record lab =
  level :: Severity
  received :: "log_Record list"

definition var_Severity :: "(string, lab) Severitier" where
  "var_Severity = (\<lambda>w. Inr (level w, w))"

definition recorder :: "(nat, string, lab) log_Processor" where
  "recorder =
     \<lparr> p_OnEmit = (\<lambda>ctx record w.
          case record of
            None \<Rightarrow> Inl ''nil record''
          | Some r \<Rightarrow>
              Inr (if body r = [] then Some ''empty body'' else None,
                   w\<lparr>received := received w @ [r]\<rparr>)),
       p_Shutdown = (\<lambda>ctx w. Inr (Some ''closed'', w\<lparr>received := []\<rparr>)),
       p_ForceFlush = (\<lambda>ctx w. Inr (None, w\<lparr>received := []\<rparr>)),
       p_Enabled = None \<rparr>"

definition by_name :: "(nat, string, lab) log_FilterProcessor" where
  "by_name = (\<lambda>ctx param w. Inr (EventName param \<noteq> [], w))"

definition named_only :: "(nat, string, lab) log_Processor" where
  "named_only = recorder\<lparr>p_Enabled := Some by_name\<rparr>"

text \<open>What a controller does to the level from outside the gate.\<close>

definition set_level :: "Severity \<Rightarrow> lab \<Rightarrow> lab" where
  "set_level v w = w\<lparr>level := v\<rparr>"

definition lab0 :: lab where
  "lab0 = \<lparr> level = 9, received = [] \<rparr>"

definition rec_error :: log_Record where
  "rec_error = \<lparr> severity = 17, body = ''disk full'' \<rparr>"

definition rec_debug :: log_Record where
  "rec_debug = \<lparr> severity = 5, body = ''tick'' \<rparr>"

definition rec_blank :: log_Record where
  "rec_blank = \<lparr> severity = 13, body = [] \<rparr>"

definition query :: "Severity \<Rightarrow> string \<Rightarrow> log_EnabledParameters" where
  "query lvl name = \<lparr> Severity = lvl, EventName = name \<rparr>"

text \<open>
  Three gates from the factory (on \<open>recorder\<close>, on \<open>named_only\<close>, and with both
  arguments nil), one built by hand with a nil sink, and the state a gate starts in.
\<close>

definition plain_gate :: "(nat, string, lab) LogProcessor" where
  "plain_gate = NewLogProcessor 9 (Some recorder) (Some var_Severity)"

definition filtering_gate :: "(nat, string, lab) LogProcessor" where
  "filtering_gate = NewLogProcessor 9 (Some named_only) (Some var_Severity)"

definition default_gate :: "(nat, string, lab) LogProcessor" where
  "default_gate = NewLogProcessor 9 None None"

definition sinkless_gate :: "(nat, string, lab) LogProcessor" where
  "sinkless_gate = \<lparr> Processor = None, filter_p = None, sev = Some var_Severity \<rparr>"

definition start :: "(nat, string, lab) LogProcessor \<Rightarrow> (nat, string, lab) pstate" where
  "start p = \<lparr> gate = p, calls = [], world = lab0 \<rparr>"

text \<open>
  A gate with the default provider whose sink is another gate: the world of the outer gate
  is the state of the inner one.
\<close>

definition stacked_gate ::
  "(nat, string panic, (nat, string, lab) pstate) LogProcessor" where
  "stacked_gate = NewLogProcessor 9 (Some LogProcessor_methods) None"

section \<open>Properties\<close>

subsection \<open>Lemmas shared by the proofs\<close>

text \<open>The two methods with a decision, once the provider has answered.\<close>

lemma OnEmit_eq:
  assumes "sev (gate st) = Some s" and "s (world st) = Inr (m, w1)"
  shows "OnEmit ctx (Some r) st =
     (if severity r < m then Inr (None, st\<lparr>calls := calls st @ [SeverityCall], world := w1\<rparr>)
      else case Processor (gate st) of
             None \<Rightarrow> Inl NilProcessor
           | Some d \<Rightarrow>
               (case p_OnEmit d ctx (Some r) w1 of
                  Inl x \<Rightarrow> Inl (Raised x)
                | Inr (err, w2) \<Rightarrow>
                    Inr (err, st\<lparr>calls := calls st @ [SeverityCall, OnEmitCall ctx (Some r)],
                                 world := w2\<rparr>)))"
  using assms
  by (simp add: OnEmit_def invoke_def not_less split: option.split sum.split prod.split)

lemma Enabled_eq:
  assumes "sev (gate st) = Some s" and "s (world st) = Inr (m, w1)"
  shows "Enabled ctx param st =
     (if Severity param < m
      then Inr (False, st\<lparr>calls := calls st @ [SeverityCall], world := w1\<rparr>)
      else case filter_p (gate st) of
             None \<Rightarrow> Inr (True, st\<lparr>calls := calls st @ [SeverityCall], world := w1\<rparr>)
           | Some f \<Rightarrow>
               (case f ctx param w1 of
                  Inl x \<Rightarrow> Inl (Raised x)
                | Inr (b, w2) \<Rightarrow>
                    Inr (b, st\<lparr>calls := calls st @ [SeverityCall, EnabledCall ctx param],
                               world := w2\<rparr>)))"
  using assms
  by (simp add: Enabled_def Let_def invoke_def not_less split: option.split sum.split prod.split)

text \<open>No method assigns to a field of its receiver.\<close>

lemma OnEmit_gate: "OnEmit ctx record st = Inr (e, st') \<Longrightarrow> gate st' = gate st"
  by (auto simp: OnEmit_def invoke_def split: option.splits sum.splits if_splits)

lemma Enabled_gate: "Enabled ctx param st = Inr (b, st') \<Longrightarrow> gate st' = gate st"
  by (auto simp: Enabled_def invoke_def Let_def split: option.splits sum.splits if_splits)

lemma Shutdown_gate: "Shutdown ctx st = Inr (e, st') \<Longrightarrow> gate st' = gate st"
  by (auto simp: Shutdown_def invoke_def split: option.splits sum.splits)

lemma ForceFlush_gate: "ForceFlush ctx st = Inr (e, st') \<Longrightarrow> gate st' = gate st"
  by (auto simp: ForceFlush_def invoke_def split: option.splits sum.splits)

lemma step_gate: "step x st = Inr st' \<Longrightarrow> gate st' = gate st"
  by (cases x)
     (auto split: sum.splits dest: OnEmit_gate Enabled_gate Shutdown_gate ForceFlush_gate)

text \<open>The fields the factory sets.\<close>

lemma NewLogProcessor_Processor:
  "Processor (NewLogProcessor info downstream provider) =
     Some (case downstream of None \<Rightarrow> defaultProcessor | Some d \<Rightarrow> d)"
  by (simp add: NewLogProcessor_def Let_def split: option.splits)

lemma NewLogProcessor_sev:
  "sev (NewLogProcessor info downstream provider) =
     Some (case provider of None \<Rightarrow> SeverityInfo info | Some s \<Rightarrow> s)"
  by (simp add: NewLogProcessor_def Let_def split: option.splits)

lemma NewLogProcessor_filter:
  "filter_p (NewLogProcessor info downstream provider) =
     p_Enabled (case downstream of None \<Rightarrow> defaultProcessor | Some d \<Rightarrow> d)"
  by (simp add: NewLogProcessor_def Let_def split: option.splits)

text \<open>A gate whose provider and sink are there dereferences neither as nil.\<close>

lemma OnEmit_no_nil_deref:
  assumes "sev (gate st) = Some s" and "Processor (gate st) = Some d"
  shows "OnEmit ctx record st \<noteq> Inl NilSeveritier"
    and "OnEmit ctx record st \<noteq> Inl NilProcessor"
  using assms
  by (simp_all add: OnEmit_def invoke_def split: option.split sum.split prod.split)

lemma Enabled_no_nil_deref:
  assumes "sev (gate st) = Some s"
  shows "Enabled ctx param st \<noteq> Inl NilSeveritier"
    and "Enabled ctx param st \<noteq> Inl NilProcessor"
  using assms
  by (simp_all add: Enabled_def Let_def invoke_def split: option.split sum.split prod.split)

lemma lifecycle_no_nil_deref:
  assumes "Processor (gate st) = Some d"
  shows "Shutdown ctx st \<noteq> Inl NilSeveritier" and "Shutdown ctx st \<noteq> Inl NilProcessor"
    and "ForceFlush ctx st \<noteq> Inl NilSeveritier" and "ForceFlush ctx st \<noteq> Inl NilProcessor"
  using assms
  by (simp_all add: Shutdown_def ForceFlush_def invoke_def split: sum.split prod.split)

text \<open>A call that returns has asked the provider, and has got an answer.\<close>

lemma OnEmit_returns:
  assumes "OnEmit ctx (Some r) st = Inr (e, st')"
  obtains s m w1 where "sev (gate st) = Some s" and "s (world st) = Inr (m, w1)"
    and "calls st' = calls st @ SeverityCall #
                        (if severity r \<ge> m then [OnEmitCall ctx (Some r)] else [])"
proof (cases "sev (gate st)")
  case None
  with assms show ?thesis by (simp add: OnEmit_def)
next
  case (Some s)
  show ?thesis
  proof (cases "s (world st)")
    case (Inl x)
    with Some assms show ?thesis by (simp add: OnEmit_def invoke_def)
  next
    case (Inr mw)
    obtain m w1 where mw: "mw = (m, w1)" by (cases mw)
    from Some Inr mw have eq: "s (world st) = Inr (m, w1)" by simp
    from assms have "calls st' = calls st @ SeverityCall #
                        (if severity r \<ge> m then [OnEmitCall ctx (Some r)] else [])"
      unfolding OnEmit_eq [OF Some eq]
      by (auto split: if_splits option.splits sum.splits)
    with Some eq that show ?thesis by simp
  qed
qed

lemma Enabled_returns:
  assumes "Enabled ctx param st = Inr (b, st')"
  obtains s m w1 where "sev (gate st) = Some s" and "s (world st) = Inr (m, w1)"
    and "calls st' = calls st @ SeverityCall #
                        (if filter_p (gate st) \<noteq> None \<and> Severity param \<ge> m
                         then [EnabledCall ctx param] else [])"
proof (cases "sev (gate st)")
  case None
  with assms show ?thesis by (simp add: Enabled_def Let_def split: option.splits)
next
  case (Some s)
  show ?thesis
  proof (cases "s (world st)")
    case (Inl x)
    with Some assms show ?thesis
      by (simp add: Enabled_def Let_def invoke_def split: option.splits)
  next
    case (Inr mw)
    obtain m w1 where mw: "mw = (m, w1)" by (cases mw)
    from Some Inr mw have eq: "s (world st) = Inr (m, w1)" by simp
    from assms have "calls st' = calls st @ SeverityCall #
                        (if filter_p (gate st) \<noteq> None \<and> Severity param \<ge> m
                         then [EnabledCall ctx param] else [])"
      unfolding Enabled_eq [OF Some eq]
      by (auto split: if_splits option.splits sum.splits)
    with Some eq that show ?thesis by simp
  qed
qed


subsection \<open>Emission\<close>

text \<open>
  Claim C1. Take a gate with a provider \<open>s\<close> and a sink \<open>d\<close>, in a state where the
  provider answers \<open>minimum\<close> and leaves the world \<open>w1\<close>. \<open>OnEmit ctx record\<close> asks the
  provider first. If the record's severity is at least \<open>minimum\<close>, the gate makes one call
  \<open>OnEmit\<close> on the sink, with the same \<open>ctx\<close> and the same record pointer, and what the
  sink does is the outcome: its error or nil is returned, its world is kept, its panic is
  passed on. Otherwise the provider's call is the only call made, the world is the one the
  provider left, and nil is returned.
\<close>

theorem OnEmit_gates_by_severity:
  assumes "sev (gate st) = Some s" and "Processor (gate st) = Some d"
      and "s (world st) = Inr (minimum, w1)"
  shows "OnEmit ctx (Some r) st =
     (if severity r \<ge> minimum then
        (case p_OnEmit d ctx (Some r) w1 of
           Inl x \<Rightarrow> Inl (Raised x)
         | Inr (err, w2) \<Rightarrow>
             Inr (err, st\<lparr>calls := calls st @ [SeverityCall, OnEmitCall ctx (Some r)],
                          world := w2\<rparr>))
      else Inr (None, st\<lparr>calls := calls st @ [SeverityCall], world := w1\<rparr>))"
  using assms(2) by (simp add: OnEmit_eq [OF assms(1,3)] not_less)

text \<open>
  At level 9 the record of severity 13 reaches the sink, whose error comes back; the
  record of severity 5 does not, and nil comes back.
\<close>

theorem OnEmit_gates_by_severity_witness:
  "sev (gate (start plain_gate)) = Some var_Severity
   \<and> Processor (gate (start plain_gate)) = Some recorder
   \<and> var_Severity (world (start plain_gate)) = Inr (9, lab0)
   \<and> OnEmit 7 (Some rec_blank) (start plain_gate) =
       Inr (Some ''empty body'',
            (start plain_gate)\<lparr>calls := [SeverityCall, OnEmitCall 7 (Some rec_blank)],
                               world := lab0\<lparr>received := [rec_blank]\<rparr>\<rparr>)
   \<and> OnEmit 7 (Some rec_debug) (start plain_gate) =
       Inr (None, (start plain_gate)\<lparr>calls := [SeverityCall], world := lab0\<rparr>)"
proof -
  have h1: "sev (gate (start plain_gate)) = Some var_Severity"
    by (simp add: start_def plain_gate_def NewLogProcessor_sev)
  have h2: "Processor (gate (start plain_gate)) = Some recorder"
    by (simp add: start_def plain_gate_def NewLogProcessor_Processor)
  have h3: "var_Severity (world (start plain_gate)) = Inr (9, lab0)"
    by (simp add: start_def var_Severity_def lab0_def)
  note inst = OnEmit_gates_by_severity [OF h1 h2 h3]
  have a: "OnEmit 7 (Some rec_blank) (start plain_gate) =
       Inr (Some ''empty body'',
            (start plain_gate)\<lparr>calls := [SeverityCall, OnEmitCall 7 (Some rec_blank)],
                               world := lab0\<lparr>received := [rec_blank]\<rparr>\<rparr>)"
    unfolding inst by (simp add: rec_blank_def recorder_def start_def lab0_def)
  have b: "OnEmit 7 (Some rec_debug) (start plain_gate) =
       Inr (None, (start plain_gate)\<lparr>calls := [SeverityCall], world := lab0\<rparr>)"
    unfolding inst by (simp add: rec_debug_def start_def)
  from h1 h2 h3 a b show ?thesis by blast
qed

subsection \<open>Enablement\<close>

text \<open>
  Claim C2. Take a gate whose field \<open>filter\<close> holds the sink's filter \<open>f\<close>, in a state
  where the provider answers \<open>minimum\<close> and leaves the world \<open>w1\<close>. \<open>Enabled ctx param\<close>
  returns true exactly when the queried severity is at least \<open>minimum\<close> and \<open>f\<close>, asked
  with the same \<open>ctx\<close> and \<open>param\<close>, returns true. Below \<open>minimum\<close> the answer is false
  and the provider's call is the only call made: \<open>f\<close> is not asked. At \<open>minimum\<close> or above,
  \<open>f\<close> is asked once and its answer is the gate's.
\<close>

theorem Enabled_with_filter:
  assumes "filter_p (gate st) = Some f" and "sev (gate st) = Some s"
      and "s (world st) = Inr (minimum, w1)"
  shows "((\<exists>st'. Enabled ctx param st = Inr (True, st')) \<longleftrightarrow>
            Severity param \<ge> minimum \<and> (\<exists>w2. f ctx param w1 = Inr (True, w2)))
       \<and> Enabled ctx param st =
           (if Severity param < minimum
            then Inr (False, st\<lparr>calls := calls st @ [SeverityCall], world := w1\<rparr>)
            else case f ctx param w1 of
                   Inl x \<Rightarrow> Inl (Raised x)
                 | Inr (b, w2) \<Rightarrow>
                     Inr (b, st\<lparr>calls := calls st @ [SeverityCall, EnabledCall ctx param],
                                world := w2\<rparr>))"
  using assms(1) by (auto simp: Enabled_eq [OF assms(2,3)] split: sum.splits)

text \<open>
  At level 9, with a filter that accepts named events only: a named query of severity 10
  is enabled, an unnamed one is not, and for a query of severity 3 the filter is not asked.
\<close>

theorem Enabled_with_filter_witness:
  "filter_p (gate (start filtering_gate)) = Some by_name
   \<and> sev (gate (start filtering_gate)) = Some var_Severity
   \<and> var_Severity (world (start filtering_gate)) = Inr (9, lab0)
   \<and> Enabled 7 (query 10 ''job'') (start filtering_gate) =
       Inr (True, (start filtering_gate)
                    \<lparr>calls := [SeverityCall, EnabledCall 7 (query 10 ''job'')], world := lab0\<rparr>)
   \<and> Enabled 7 (query 10 []) (start filtering_gate) =
       Inr (False, (start filtering_gate)
                     \<lparr>calls := [SeverityCall, EnabledCall 7 (query 10 [])], world := lab0\<rparr>)
   \<and> Enabled 7 (query 3 ''job'') (start filtering_gate) =
       Inr (False, (start filtering_gate)\<lparr>calls := [SeverityCall], world := lab0\<rparr>)"
proof -
  have h1: "filter_p (gate (start filtering_gate)) = Some by_name"
    by (simp add: start_def filtering_gate_def NewLogProcessor_filter named_only_def)
  have h2: "sev (gate (start filtering_gate)) = Some var_Severity"
    by (simp add: start_def filtering_gate_def NewLogProcessor_sev)
  have h3: "var_Severity (world (start filtering_gate)) = Inr (9, lab0)"
    by (simp add: start_def var_Severity_def lab0_def)
  note inst = Enabled_with_filter [OF h1 h2 h3, THEN conjunct2]
  have a: "Enabled 7 (query 10 ''job'') (start filtering_gate) =
       Inr (True, (start filtering_gate)
                    \<lparr>calls := [SeverityCall, EnabledCall 7 (query 10 ''job'')], world := lab0\<rparr>)"
    unfolding inst by (simp add: query_def by_name_def start_def)
  have b: "Enabled 7 (query 10 []) (start filtering_gate) =
       Inr (False, (start filtering_gate)
                     \<lparr>calls := [SeverityCall, EnabledCall 7 (query 10 [])], world := lab0\<rparr>)"
    unfolding inst by (simp add: query_def by_name_def start_def)
  have c: "Enabled 7 (query 3 ''job'') (start filtering_gate) =
       Inr (False, (start filtering_gate)\<lparr>calls := [SeverityCall], world := lab0\<rparr>)"
    unfolding inst by (simp add: query_def start_def)
  from h1 h2 h3 a b c show ?thesis by blast
qed

text \<open>
  Claim C3. Take any gate with a provider, in a state where the provider answers
  \<open>minimum\<close> and leaves the world \<open>w1\<close>. If the field \<open>filter\<close> is nil (the sink has no
  \<^verbatim>\<open>Enabled\<close> method), \<open>Enabled\<close> returns whether the queried severity is at least
  \<open>minimum\<close>, and the provider's call is the only call made. Whatever the field \<open>filter\<close>
  holds, \<open>Enabled\<close> returns false for a severity below \<open>minimum\<close>.
\<close>

theorem Enabled_by_severity_alone:
  assumes "sev (gate st) = Some s" and "s (world st) = Inr (minimum, w1)"
  shows "(filter_p (gate st) = None \<longrightarrow>
            Enabled ctx param st =
              Inr (Severity param \<ge> minimum,
                   st\<lparr>calls := calls st @ [SeverityCall], world := w1\<rparr>))
       \<and> (Severity param < minimum \<longrightarrow>
            Enabled ctx param st =
              Inr (False, st\<lparr>calls := calls st @ [SeverityCall], world := w1\<rparr>))"
  by (auto simp: Enabled_eq [OF assms])

text \<open>
  At level 9, on a sink without filter, severity 10 is enabled and severity 3 is not; on
  the sink with a filter, severity 3 is not enabled although the event is named.
\<close>

theorem Enabled_by_severity_alone_witness:
  "sev (gate (start plain_gate)) = Some var_Severity
   \<and> var_Severity (world (start plain_gate)) = Inr (9, lab0)
   \<and> filter_p (gate (start plain_gate)) = None
   \<and> Enabled 7 (query 10 ''job'') (start plain_gate) =
       Inr (True, (start plain_gate)\<lparr>calls := [SeverityCall], world := lab0\<rparr>)
   \<and> Enabled 7 (query 3 ''job'') (start plain_gate) =
       Inr (False, (start plain_gate)\<lparr>calls := [SeverityCall], world := lab0\<rparr>)
   \<and> sev (gate (start filtering_gate)) = Some var_Severity
   \<and> var_Severity (world (start filtering_gate)) = Inr (9, lab0)
   \<and> Severity (query 3 ''job'') < 9
   \<and> Enabled 7 (query 3 ''job'') (start filtering_gate) =
       Inr (False, (start filtering_gate)\<lparr>calls := [SeverityCall], world := lab0\<rparr>)"
proof -
  have h1: "sev (gate (start plain_gate)) = Some var_Severity"
    by (simp add: start_def plain_gate_def NewLogProcessor_sev)
  have h2: "var_Severity (world (start plain_gate)) = Inr (9, lab0)"
    by (simp add: start_def var_Severity_def lab0_def)
  have h3: "filter_p (gate (start plain_gate)) = None"
    by (simp add: start_def plain_gate_def NewLogProcessor_filter recorder_def)
  have g1: "sev (gate (start filtering_gate)) = Some var_Severity"
    by (simp add: start_def filtering_gate_def NewLogProcessor_sev)
  have g2: "var_Severity (world (start filtering_gate)) = Inr (9, lab0)"
    by (simp add: start_def var_Severity_def lab0_def)
  have g3: "Severity (query 3 ''job'') < 9"
    by (simp add: query_def)
  note plain = Enabled_by_severity_alone [OF h1 h2, THEN conjunct1, rule_format, OF h3]
  have a: "Enabled 7 (query 10 ''job'') (start plain_gate) =
       Inr (True, (start plain_gate)\<lparr>calls := [SeverityCall], world := lab0\<rparr>)"
    unfolding plain by (simp add: query_def start_def)
  have b: "Enabled 7 (query 3 ''job'') (start plain_gate) =
       Inr (False, (start plain_gate)\<lparr>calls := [SeverityCall], world := lab0\<rparr>)"
    unfolding plain by (simp add: query_def start_def)
  have c: "Enabled 7 (query 3 ''job'') (start filtering_gate) =
       Inr (False, (start filtering_gate)\<lparr>calls := [SeverityCall], world := lab0\<rparr>)"
    using Enabled_by_severity_alone [OF g1 g2, THEN conjunct2, rule_format, OF g3, of 7]
    by (simp add: start_def)
  from h1 h2 h3 a b g1 g2 g3 c show ?thesis by blast
qed


subsection \<open>Construction\<close>

text \<open>
  Claim C4. \<open>NewLogProcessor\<close> is a total function: it returns a gate for every pair of
  arguments, nil or not. In that gate the sink is never nil (it is the no-op sink when
  the argument was nil) and the provider is never nil (it is \<open>SeverityInfo\<close>, the fixed
  provider of the informational level, when the argument was nil). Consequently no method
  called on such a gate, in any state, fails on a nil provider or a nil sink.
\<close>

theorem NewLogProcessor_never_nil:
  fixes downstream :: "('c, 'x, 's) log_Processor option"
  shows
  "Processor (NewLogProcessor info downstream provider) =
     Some (case downstream of None \<Rightarrow> defaultProcessor | Some d \<Rightarrow> d)
   \<and> sev (NewLogProcessor info downstream provider) =
       Some (case provider of None \<Rightarrow> SeverityInfo info | Some s \<Rightarrow> s)
   \<and> (SeverityInfo info :: ('x, 's) Severitier) w = Inr (info, w)
   \<and> OnEmit ctx rcd
        \<lparr> gate = NewLogProcessor info downstream provider, calls = tr, world = w \<rparr>
         \<notin> {Inl NilSeveritier, Inl NilProcessor}
   \<and> Enabled ctx param
        \<lparr> gate = NewLogProcessor info downstream provider, calls = tr, world = w \<rparr>
         \<notin> {Inl NilSeveritier, Inl NilProcessor}
   \<and> Shutdown ctx
        \<lparr> gate = NewLogProcessor info downstream provider, calls = tr, world = w \<rparr>
         \<notin> {Inl NilSeveritier, Inl NilProcessor}
   \<and> ForceFlush ctx
        \<lparr> gate = NewLogProcessor info downstream provider, calls = tr, world = w \<rparr>
         \<notin> {Inl NilSeveritier, Inl NilProcessor}"
proof -
  let ?st = "\<lparr> gate = NewLogProcessor info downstream provider, calls = tr, world = w \<rparr>"
  have P: "Processor (gate ?st) =
             Some (case downstream of None \<Rightarrow> defaultProcessor | Some d \<Rightarrow> d)"
    by (simp add: NewLogProcessor_Processor)
  have S: "sev (gate ?st) = Some (case provider of None \<Rightarrow> SeverityInfo info | Some s \<Rightarrow> s)"
    by (simp add: NewLogProcessor_sev)
  have I: "SeverityInfo info w = Inr (info, w)"
    by (simp add: SeverityInfo_def)
  from P S I show ?thesis
    using OnEmit_no_nil_deref [OF S P, of ctx rcd] Enabled_no_nil_deref [OF S, of ctx param]
      lifecycle_no_nil_deref [OF P, of ctx]
    by simp
qed

text \<open>The gate made from two nil arguments, and a record emitted on it.\<close>

theorem NewLogProcessor_never_nil_witness:
  "Processor default_gate = Some defaultProcessor
   \<and> sev default_gate = Some (SeverityInfo 9)
   \<and> OnEmit 7 (Some rec_error) (start default_gate) \<notin> {Inl NilSeveritier, Inl NilProcessor}
   \<and> Enabled 7 (query 10 ''job'') (start default_gate) \<notin> {Inl NilSeveritier, Inl NilProcessor}
   \<and> Shutdown 7 (start default_gate) \<notin> {Inl NilSeveritier, Inl NilProcessor}
   \<and> ForceFlush 7 (start default_gate) \<notin> {Inl NilSeveritier, Inl NilProcessor}"
  using NewLogProcessor_never_nil
      [where info = 9 and downstream = "None :: (nat, string, lab) log_Processor option"
         and provider = None and w = lab0 and ctx = "7 :: nat" and rcd = "Some rec_error"
         and tr = "[]" and param = "query 10 ''job''"]
  by (simp add: default_gate_def start_def)

text \<open>
  Claim C5. Take the gate the factory makes when the sink argument is nil, with any
  provider argument, in a state where its provider answers \<open>minimum\<close> and leaves the
  world \<open>w1\<close>. For every record \<open>OnEmit\<close> returns nil, and the world after the call is
  \<open>w1\<close>: a record of sufficient severity is handed to the no-op sink, which changes
  nothing. For every query \<open>Enabled\<close> returns false, also at \<open>minimum\<close> and above, where
  the no-op sink's own \<^verbatim>\<open>Enabled\<close> is asked and says false.
\<close>

theorem nil_downstream_is_noop:
  assumes "(case provider of None \<Rightarrow> SeverityInfo info | Some s \<Rightarrow> s) w = Inr (minimum, w1)"
  shows "OnEmit ctx (Some r) \<lparr> gate = NewLogProcessor info None provider, calls = tr, world = w \<rparr> =
           Inr (None, \<lparr> gate = NewLogProcessor info None provider,
                        calls = tr @ SeverityCall #
                                  (if severity r \<ge> minimum then [OnEmitCall ctx (Some r)] else []),
                        world = w1 \<rparr>)
       \<and> Enabled ctx param \<lparr> gate = NewLogProcessor info None provider, calls = tr, world = w \<rparr> =
           Inr (False, \<lparr> gate = NewLogProcessor info None provider,
                         calls = tr @ SeverityCall #
                                   (if Severity param \<ge> minimum then [EnabledCall ctx param] else []),
                         world = w1 \<rparr>)"
proof -
  let ?p = "NewLogProcessor info None provider"
  let ?st = "\<lparr> gate = ?p, calls = tr, world = w \<rparr>"
  have S: "sev (gate ?st) = Some (case provider of None \<Rightarrow> SeverityInfo info | Some s \<Rightarrow> s)"
    by (simp add: NewLogProcessor_sev)
  have W: "(case provider of None \<Rightarrow> SeverityInfo info | Some s \<Rightarrow> s) (world ?st) = Inr (minimum, w1)"
    using assms by simp
  have P: "Processor ?p = Some noopProcessor"
    by (simp add: NewLogProcessor_Processor defaultProcessor_def)
  have F: "filter_p ?p = Some (\<lambda>ctx param w. Inr (False, w))"
    by (simp add: NewLogProcessor_filter defaultProcessor_def noopProcessor_def)
  have N: "p_OnEmit noopProcessor ctx (Some r) w1 = Inr (None, w1)"
    by (simp add: noopProcessor_def)
  have "OnEmit ctx (Some r) ?st =
           Inr (None, \<lparr> gate = ?p,
                        calls = tr @ SeverityCall #
                                  (if severity r \<ge> minimum then [OnEmitCall ctx (Some r)] else []),
                        world = w1 \<rparr>)"
    unfolding OnEmit_eq [OF S W] by (simp add: P N)
  moreover have "Enabled ctx param ?st =
           Inr (False, \<lparr> gate = ?p,
                         calls = tr @ SeverityCall #
                                   (if Severity param \<ge> minimum then [EnabledCall ctx param] else []),
                         world = w1 \<rparr>)"
    unfolding Enabled_eq [OF S W] by (simp add: F)
  ultimately show ?thesis by (rule conjI)
qed

text \<open>
  With both arguments nil the level is the informational one, here 9: the record of
  severity 17 and the query of severity 10 are at or above it.
\<close>

theorem nil_downstream_is_noop_witness:
  "SeverityInfo 9 lab0 = Inr (9, lab0)
   \<and> OnEmit 7 (Some rec_error) (start default_gate) =
       Inr (None, \<lparr> gate = default_gate,
                    calls = [SeverityCall, OnEmitCall 7 (Some rec_error)], world = lab0 \<rparr>)
   \<and> Enabled 7 (query 10 ''job'') (start default_gate) =
       Inr (False, \<lparr> gate = default_gate,
                     calls = [SeverityCall, EnabledCall 7 (query 10 ''job'')], world = lab0 \<rparr>)"
proof -
  have h: "(case None of None \<Rightarrow> SeverityInfo 9 | Some s \<Rightarrow> s) lab0 = Inr (9, lab0)"
    by (simp add: SeverityInfo_def)
  from nil_downstream_is_noop
      [OF h, where ctx = 7 and r = rec_error and tr = "[]" and param = "query 10 ''job''"] h
  show ?thesis
    by (simp add: default_gate_def start_def rec_error_def query_def)
qed

subsection \<open>Lifecycle\<close>

text \<open>
  Claim C7. \<open>Shutdown\<close> and \<open>ForceFlush\<close> of a gate are those of its sink \<open>d\<close>: the
  gate makes the one call on the sink, with the same \<open>ctx\<close>, and nothing else (the
  provider is not asked); the sink's error or nil is returned, its world is kept, its panic
  is passed on. On a gate built by hand with a nil sink they fail, as a call on the nil
  sink itself does.
\<close>

theorem lifecycle_passes_through:
  "(Processor (gate st) = None \<longrightarrow>
      Shutdown ctx st = Inl NilProcessor \<and> ForceFlush ctx st = Inl NilProcessor)
 \<and> (Processor (gate st) = Some d \<longrightarrow>
      Shutdown ctx st =
        (case p_Shutdown d ctx (world st) of
           Inl x \<Rightarrow> Inl (Raised x)
         | Inr (err, w') \<Rightarrow>
             Inr (err, st\<lparr>calls := calls st @ [ShutdownCall ctx], world := w'\<rparr>))
    \<and> ForceFlush ctx st =
        (case p_ForceFlush d ctx (world st) of
           Inl x \<Rightarrow> Inl (Raised x)
         | Inr (err, w') \<Rightarrow>
             Inr (err, st\<lparr>calls := calls st @ [ForceFlushCall ctx], world := w'\<rparr>)))"
  by (auto simp: Shutdown_def ForceFlush_def invoke_def split: sum.splits)

text \<open>
  The recording sink reports an error on shutdown and none on flush; the gate returns
  the same. The gate built by hand without a sink fails.
\<close>

theorem lifecycle_passes_through_witness:
  "Processor (gate (start plain_gate)) = Some recorder
   \<and> Shutdown 7 (start plain_gate) =
       Inr (Some ''closed'', (start plain_gate)\<lparr>calls := [ShutdownCall 7], world := lab0\<rparr>)
   \<and> ForceFlush 8 (start plain_gate) =
       Inr (None, (start plain_gate)\<lparr>calls := [ForceFlushCall 8], world := lab0\<rparr>)
   \<and> Processor (gate (start sinkless_gate)) = None
   \<and> Shutdown 7 (start sinkless_gate) = Inl NilProcessor
   \<and> ForceFlush 8 (start sinkless_gate) = Inl NilProcessor"
proof -
  have h1: "Processor (gate (start plain_gate)) = Some recorder"
    by (simp add: start_def plain_gate_def NewLogProcessor_Processor)
  have h2: "Processor (gate (start sinkless_gate)) = None"
    by (simp add: start_def sinkless_gate_def)
  have a: "Shutdown 7 (start plain_gate) =
       Inr (Some ''closed'', (start plain_gate)\<lparr>calls := [ShutdownCall 7], world := lab0\<rparr>)"
    using lifecycle_passes_through [of "start plain_gate" 7 recorder] h1
    by (simp add: recorder_def start_def lab0_def)
  have b: "ForceFlush 8 (start plain_gate) =
       Inr (None, (start plain_gate)\<lparr>calls := [ForceFlushCall 8], world := lab0\<rparr>)"
    using lifecycle_passes_through [of "start plain_gate" 8 recorder] h1
    by (simp add: recorder_def start_def lab0_def)
  have c: "Shutdown 7 (start sinkless_gate) = Inl NilProcessor"
    using lifecycle_passes_through [of "start sinkless_gate" 7] h2 by simp
  have d: "ForceFlush 8 (start sinkless_gate) = Inl NilProcessor"
    using lifecycle_passes_through [of "start sinkless_gate" 8] h2 by simp
  from h1 h2 a b c d show ?thesis by blast
qed


subsection \<open>The gate keeps nothing\<close>

text \<open>
  Claim C6. The level is read from the provider in every call and kept nowhere. Let a
  first call of any method return, and let the world then change to any \<open>w\<close>, in which
  the provider answers \<open>minimum\<close>. The very next call on the same gate decides against
  \<open>minimum\<close>, whatever the provider answered before: \<open>OnEmit\<close> drops a record below
  \<open>minimum\<close> and forwards any other, \<open>Enabled\<close> says false below \<open>minimum\<close> and
  otherwise true or what the filter says.
\<close>

theorem threshold_read_afresh:
  assumes "step op1 st = Inr st1"
      and "sev (gate st) = Some s"
      and "s w = Inr (minimum, w1)"
  shows "OnEmit ctx (Some r) (st1\<lparr>world := w\<rparr>) =
           (if severity r < minimum
            then Inr (None, st1\<lparr>calls := calls st1 @ [SeverityCall], world := w1\<rparr>)
            else case Processor (gate st) of
                   None \<Rightarrow> Inl NilProcessor
                 | Some d \<Rightarrow>
                     (case p_OnEmit d ctx (Some r) w1 of
                        Inl x \<Rightarrow> Inl (Raised x)
                      | Inr (err, w2) \<Rightarrow>
                          Inr (err, st1\<lparr>calls := calls st1 @
                                                  [SeverityCall, OnEmitCall ctx (Some r)],
                                        world := w2\<rparr>)))
       \<and> Enabled ctx param (st1\<lparr>world := w\<rparr>) =
           (if Severity param < minimum
            then Inr (False, st1\<lparr>calls := calls st1 @ [SeverityCall], world := w1\<rparr>)
            else case filter_p (gate st) of
                   None \<Rightarrow> Inr (True, st1\<lparr>calls := calls st1 @ [SeverityCall], world := w1\<rparr>)
                 | Some f \<Rightarrow>
                     (case f ctx param w1 of
                        Inl x \<Rightarrow> Inl (Raised x)
                      | Inr (b, w2) \<Rightarrow>
                          Inr (b, st1\<lparr>calls := calls st1 @
                                                [SeverityCall, EnabledCall ctx param],
                                      world := w2\<rparr>)))"
proof -
  from assms(1) have g: "gate st1 = gate st" by (rule step_gate)
  have S: "sev (gate (st1\<lparr>world := w\<rparr>)) = Some s"
    using g assms(2) by simp
  have W: "s (world (st1\<lparr>world := w\<rparr>)) = Inr (minimum, w1)"
    using assms(3) by simp
  show ?thesis
    unfolding OnEmit_eq [OF S W] Enabled_eq [OF S W]
    by (simp add: g split: option.split sum.split prod.split)
qed

text \<open>
  At level 9 the record of severity 17 is forwarded. The level is then set to 20, and
  the same record is dropped by the next call and a query of severity 10 is refused. In the
  other direction: the record of severity 5 is dropped at level 9, the level is set to 3,
  and the next call forwards it.
\<close>

theorem threshold_read_afresh_witness:
  "step (EmitOp 7 (Some rec_error)) (start plain_gate) =
     Inr \<lparr> gate = plain_gate, calls = [SeverityCall, OnEmitCall 7 (Some rec_error)],
           world = \<lparr> level = 9, received = [rec_error] \<rparr> \<rparr>
   \<and> sev (gate (start plain_gate)) = Some var_Severity
   \<and> var_Severity \<lparr> level = 20, received = [rec_error] \<rparr> =
       Inr (20, \<lparr> level = 20, received = [rec_error] \<rparr>)
   \<and> OnEmit 8 (Some rec_error)
        \<lparr> gate = plain_gate, calls = [SeverityCall, OnEmitCall 7 (Some rec_error)],
          world = \<lparr> level = 20, received = [rec_error] \<rparr> \<rparr> =
       Inr (None,
            \<lparr> gate = plain_gate,
              calls = [SeverityCall, OnEmitCall 7 (Some rec_error), SeverityCall],
              world = \<lparr> level = 20, received = [rec_error] \<rparr> \<rparr>)
   \<and> Enabled 8 (query 10 ''job'')
        \<lparr> gate = plain_gate, calls = [SeverityCall, OnEmitCall 7 (Some rec_error)],
          world = \<lparr> level = 20, received = [rec_error] \<rparr> \<rparr> =
       Inr (False,
            \<lparr> gate = plain_gate,
              calls = [SeverityCall, OnEmitCall 7 (Some rec_error), SeverityCall],
              world = \<lparr> level = 20, received = [rec_error] \<rparr> \<rparr>)
   \<and> step (EmitOp 7 (Some rec_debug)) (start plain_gate) =
       Inr \<lparr> gate = plain_gate, calls = [SeverityCall], world = lab0 \<rparr>
   \<and> var_Severity (set_level 3 lab0) = Inr (3, set_level 3 lab0)
   \<and> OnEmit 8 (Some rec_debug)
        \<lparr> gate = plain_gate, calls = [SeverityCall], world = set_level 3 lab0 \<rparr> =
       Inr (None,
            \<lparr> gate = plain_gate,
              calls = [SeverityCall, SeverityCall, OnEmitCall 8 (Some rec_debug)],
              world = \<lparr> level = 3, received = [rec_debug] \<rparr> \<rparr>)"
proof -
  let ?st1 = "\<lparr> gate = plain_gate, calls = [SeverityCall, OnEmitCall 7 (Some rec_error)],
               world = \<lparr> level = 9, received = [rec_error] \<rparr> \<rparr>"
  let ?w = "\<lparr> level = 20, received = [rec_error] \<rparr>"
  let ?st2 = "\<lparr> gate = plain_gate, calls = [SeverityCall], world = lab0 \<rparr>"
  have P: "Processor (gate (start plain_gate)) = Some recorder"
    by (simp add: start_def plain_gate_def NewLogProcessor_Processor)
  have F: "filter_p (gate (start plain_gate)) = None"
    by (simp add: start_def plain_gate_def NewLogProcessor_filter recorder_def)
  have h1: "step (EmitOp 7 (Some rec_error)) (start plain_gate) = Inr ?st1"
    by (simp add: OnEmit_def invoke_def start_def plain_gate_def NewLogProcessor_sev
          NewLogProcessor_Processor var_Severity_def lab0_def rec_error_def recorder_def)
  have h2: "sev (gate (start plain_gate)) = Some var_Severity"
    by (simp add: start_def plain_gate_def NewLogProcessor_sev)
  have h3: "var_Severity ?w = Inr (20, ?w)"
    by (simp add: var_Severity_def)
  note up = threshold_read_afresh [OF h1 h2 h3, unfolded P F]
  have a: "OnEmit 8 (Some rec_error) (?st1\<lparr>world := ?w\<rparr>) =
             Inr (None, ?st1\<lparr>calls := calls ?st1 @ [SeverityCall], world := ?w\<rparr>)"
    unfolding up [THEN conjunct1] by (simp add: rec_error_def)
  have b: "Enabled 8 (query 10 ''job'') (?st1\<lparr>world := ?w\<rparr>) =
             Inr (False, ?st1\<lparr>calls := calls ?st1 @ [SeverityCall], world := ?w\<rparr>)"
    unfolding up [THEN conjunct2] by (simp add: query_def)
  have k1: "step (EmitOp 7 (Some rec_debug)) (start plain_gate) = Inr ?st2"
    by (simp add: OnEmit_def invoke_def start_def plain_gate_def NewLogProcessor_sev
          var_Severity_def lab0_def rec_debug_def)
  have k3: "var_Severity (set_level 3 lab0) = Inr (3, set_level 3 lab0)"
    by (simp add: var_Severity_def set_level_def lab0_def)
  note down = threshold_read_afresh [OF k1 h2 k3, unfolded P F]
  have c: "OnEmit 8 (Some rec_debug) (?st2\<lparr>world := set_level 3 lab0\<rparr>) =
             Inr (None, ?st2\<lparr>calls := calls ?st2 @ [SeverityCall, OnEmitCall 8 (Some rec_debug)],
                              world := \<lparr> level = 3, received = [rec_debug] \<rparr>\<rparr>)"
    unfolding down [THEN conjunct1]
    by (simp add: rec_debug_def recorder_def set_level_def lab0_def)
  from h1 h2 h3 a b k1 k3 c show ?thesis by simp
qed

text \<open>
  Claim C8. The gate has no state of its own that changes. Let a caller make any sequence
  of calls of \<open>OnEmit\<close>, \<open>Enabled\<close>, \<open>Shutdown\<close> and \<open>ForceFlush\<close> on a gate, with any
  changes of the outside world in between. If the sequence runs to its end, the struct of
  the gate is what it was at the start: the same sink, the same filter, the same provider.
\<close>

theorem gate_never_mutated:
  "run ops st = Inr st' \<Longrightarrow> gate st' = gate st"
proof (induction ops arbitrary: st)
  case Nil
  then show ?case by simp
next
  case (Cons x xs)
  from Cons.prems obtain st1 where s1: "step x st = Inr st1" and r: "run xs st1 = Inr st'"
    by (auto split: sum.splits)
  from r have "gate st' = gate st1" by (rule Cons.IH)
  also from s1 have "gate st1 = gate st" by (rule step_gate)
  finally show ?case .
qed

text \<open>
  Six steps on a gate made by the factory: two records, a change of level between them,
  a query, a flush and a shutdown.
\<close>

theorem gate_never_mutated_witness:
  "run [EmitOp 7 (Some rec_error), OutsideOp (set_level 20), EmitOp 8 (Some rec_error),
        EnabledOp 7 (query 10 ''job''), ForceFlushOp 8, ShutdownOp 7] (start plain_gate) =
     Inr \<lparr> gate = plain_gate,
           calls = [SeverityCall, OnEmitCall 7 (Some rec_error), SeverityCall, SeverityCall,
                    ForceFlushCall 8, ShutdownCall 7],
           world = \<lparr> level = 20, received = [] \<rparr> \<rparr>
   \<and> gate \<lparr> gate = plain_gate,
           calls = [SeverityCall, OnEmitCall 7 (Some rec_error), SeverityCall, SeverityCall,
                    ForceFlushCall 8, ShutdownCall 7],
           world = \<lparr> level = 20, received = [] \<rparr> \<rparr> = gate (start plain_gate)"
proof -
  have P: "Processor plain_gate = Some recorder"
    by (simp add: plain_gate_def NewLogProcessor_Processor)
  have F: "filter_p plain_gate = None"
    by (simp add: plain_gate_def NewLogProcessor_filter recorder_def)
  have S: "sev plain_gate = Some var_Severity"
    by (simp add: plain_gate_def NewLogProcessor_sev)
  have h: "run [EmitOp 7 (Some rec_error), OutsideOp (set_level 20), EmitOp 8 (Some rec_error),
        EnabledOp 7 (query 10 ''job''), ForceFlushOp 8, ShutdownOp 7] (start plain_gate) =
     Inr \<lparr> gate = plain_gate,
           calls = [SeverityCall, OnEmitCall 7 (Some rec_error), SeverityCall, SeverityCall,
                    ForceFlushCall 8, ShutdownCall 7],
           world = \<lparr> level = 20, received = [] \<rparr> \<rparr>"
    by (simp add: OnEmit_def Enabled_def Shutdown_def ForceFlush_def invoke_def P F S start_def
          var_Severity_def lab0_def rec_error_def recorder_def query_def set_level_def)
  from h gate_never_mutated [OF h] show ?thesis by (rule conjI)
qed

subsection \<open>One reading of the level in each call\<close>

text \<open>
  Claim C9. A call of \<open>OnEmit\<close> or of \<open>Enabled\<close> that returns has called the provider's
  \<open>Severity\<close> exactly once: among the calls it added, \<open>SeverityCall\<close> occurs once, as the
  first. The one value \<open>m\<close> the provider returned is what the whole decision of the call
  rests on: the record went to the sink exactly when its severity is at least \<open>m\<close>, the
  filter was asked exactly when there is one and the queried severity is at least \<open>m\<close>.
\<close>

theorem Severity_called_exactly_once:
  "(OnEmit ctx (Some r) st = Inr (e, st') \<longrightarrow>
     (\<exists>s m w1. sev (gate st) = Some s \<and> s (world st) = Inr (m, w1)
        \<and> calls st' = calls st @ SeverityCall #
                        (if severity r \<ge> m then [OnEmitCall ctx (Some r)] else [])
        \<and> count_list (drop (length (calls st)) (calls st')) SeverityCall = 1))
 \<and> (Enabled ctx param st = Inr (b, st'') \<longrightarrow>
     (\<exists>s m w1. sev (gate st) = Some s \<and> s (world st) = Inr (m, w1)
        \<and> calls st'' = calls st @ SeverityCall #
                        (if filter_p (gate st) \<noteq> None \<and> Severity param \<ge> m
                         then [EnabledCall ctx param] else [])
        \<and> count_list (drop (length (calls st)) (calls st'')) SeverityCall = 1))"
proof (intro conjI impI)
  assume "OnEmit ctx (Some r) st = Inr (e, st')"
  then obtain s m w1 where "sev (gate st) = Some s" and "s (world st) = Inr (m, w1)"
    and c: "calls st' = calls st @ SeverityCall #
                        (if severity r \<ge> m then [OnEmitCall ctx (Some r)] else [])"
    by (rule OnEmit_returns)
  moreover from c have "count_list (drop (length (calls st)) (calls st')) SeverityCall = 1"
    by simp
  ultimately show "\<exists>s m w1. sev (gate st) = Some s \<and> s (world st) = Inr (m, w1)
        \<and> calls st' = calls st @ SeverityCall #
                        (if severity r \<ge> m then [OnEmitCall ctx (Some r)] else [])
        \<and> count_list (drop (length (calls st)) (calls st')) SeverityCall = 1"
    by blast
next
  assume "Enabled ctx param st = Inr (b, st'')"
  then obtain s m w1 where "sev (gate st) = Some s" and "s (world st) = Inr (m, w1)"
    and c: "calls st'' = calls st @ SeverityCall #
                        (if filter_p (gate st) \<noteq> None \<and> Severity param \<ge> m
                         then [EnabledCall ctx param] else [])"
    by (rule Enabled_returns)
  moreover from c have "count_list (drop (length (calls st)) (calls st'')) SeverityCall = 1"
    by simp
  ultimately show "\<exists>s m w1. sev (gate st) = Some s \<and> s (world st) = Inr (m, w1)
        \<and> calls st'' = calls st @ SeverityCall #
                        (if filter_p (gate st) \<noteq> None \<and> Severity param \<ge> m
                         then [EnabledCall ctx param] else [])
        \<and> count_list (drop (length (calls st)) (calls st'')) SeverityCall = 1"
    by blast
qed


text \<open>
  One record forwarded and one query answered at level 9: each call has added a single
  \<open>SeverityCall\<close>.
\<close>

theorem Severity_called_exactly_once_witness:
  "OnEmit 7 (Some rec_error) (start plain_gate) =
     Inr (None, \<lparr> gate = plain_gate, calls = [SeverityCall, OnEmitCall 7 (Some rec_error)],
                  world = \<lparr> level = 9, received = [rec_error] \<rparr> \<rparr>)
   \<and> count_list
        (drop (length (calls (start plain_gate)))
           (calls \<lparr> gate = plain_gate, calls = [SeverityCall, OnEmitCall 7 (Some rec_error)],
                    world = \<lparr> level = 9, received = [rec_error] \<rparr> \<rparr>))
        SeverityCall = 1
   \<and> Enabled 8 (query 10 ''job'') (start filtering_gate) =
       Inr (True, \<lparr> gate = filtering_gate,
                    calls = [SeverityCall, EnabledCall 8 (query 10 ''job'')], world = lab0 \<rparr>)
   \<and> count_list
        (drop (length (calls (start filtering_gate)))
           (calls \<lparr> gate = filtering_gate,
                    calls = [SeverityCall, EnabledCall 8 (query 10 ''job'')], world = lab0 \<rparr>))
        SeverityCall = 1"
proof -
  let ?st1 = "\<lparr> gate = plain_gate, calls = [SeverityCall, OnEmitCall 7 (Some rec_error)],
               world = \<lparr> level = 9, received = [rec_error] \<rparr> \<rparr>"
  let ?st2 = "\<lparr> gate = filtering_gate,
               calls = [SeverityCall, EnabledCall 8 (query 10 ''job'')], world = lab0 \<rparr>"
  have a: "OnEmit 7 (Some rec_error) (start plain_gate) = Inr (None, ?st1)"
    by (simp add: OnEmit_def invoke_def start_def plain_gate_def NewLogProcessor_sev
          NewLogProcessor_Processor var_Severity_def lab0_def rec_error_def recorder_def)
  have b: "Enabled 8 (query 10 ''job'') (start filtering_gate) = Inr (True, ?st2)"
    by (simp add: Enabled_def invoke_def start_def filtering_gate_def NewLogProcessor_sev
          NewLogProcessor_filter var_Severity_def lab0_def query_def named_only_def by_name_def)
  from Severity_called_exactly_once
         [THEN conjunct1, rule_format, OF a]
  have c: "count_list (drop (length (calls (start plain_gate))) (calls ?st1)) SeverityCall = 1"
    by blast
  from Severity_called_exactly_once
         [THEN conjunct2, rule_format, OF b]
  have d: "count_list (drop (length (calls (start filtering_gate))) (calls ?st2)) SeverityCall = 1"
    by blast
  from a c b d show ?thesis by blast
qed

subsection \<open>The gate as a filtering sink\<close>

text \<open>
  Claim C10. A gate is itself a sink with an \<^verbatim>\<open>Enabled\<close> method: its method set holds
  \<open>Enabled\<close>, so that a gate given to the factory as the sink of another gate is found
  to be a filter. This does not depend on the sink the gate wraps: on a sink \<open>d\<close> without
  an \<^verbatim>\<open>Enabled\<close> method, the gate's \<open>Enabled\<close> answers all the same, and its answer is
  the comparison of the queried severity with the provider's \<open>minimum\<close>, nothing else.
\<close>

theorem LogProcessor_is_FilterProcessor:
  fixes d :: "('c, 'x, 's) log_Processor"
    and provider' :: "('y panic, ('b, 'y, 't) pstate) Severitier option"
  shows "p_Enabled (LogProcessor_methods :: ('b, 'y panic, ('b, 'y, 't) pstate) log_Processor) =
           Some Enabled
   \<and> filter_p (NewLogProcessor info' (Some LogProcessor_methods) provider') = Some Enabled
   \<and> (p_Enabled d = None \<longrightarrow> s w = Inr (minimum, w1) \<longrightarrow>
        Enabled ctx param
          \<lparr> gate = NewLogProcessor info (Some d) (Some s), calls = tr, world = w \<rparr> =
        Inr (Severity param \<ge> minimum,
             \<lparr> gate = NewLogProcessor info (Some d) (Some s),
               calls = tr @ [SeverityCall], world = w1 \<rparr>))"
proof (intro conjI impI)
  show "p_Enabled (LogProcessor_methods :: ('b, 'y panic, ('b, 'y, 't) pstate) log_Processor) =
          Some Enabled"
    by (simp add: LogProcessor_methods_def)
  then show "filter_p (NewLogProcessor info' (Some LogProcessor_methods) provider') = Some Enabled"
    by (simp add: NewLogProcessor_filter)
next
  let ?st = "\<lparr> gate = NewLogProcessor info (Some d) (Some s), calls = tr, world = w \<rparr>"
  assume nofilter: "p_Enabled d = None" and answer: "s w = Inr (minimum, w1)"
  have S: "sev (gate ?st) = Some s"
    by (simp add: NewLogProcessor_sev)
  have W: "s (world ?st) = Inr (minimum, w1)"
    using answer by simp
  have F: "filter_p (NewLogProcessor info (Some d) (Some s)) = None"
    using nofilter by (simp add: NewLogProcessor_filter)
  show "Enabled ctx param ?st =
        Inr (Severity param \<ge> minimum,
             \<lparr> gate = NewLogProcessor info (Some d) (Some s),
               calls = tr @ [SeverityCall], world = w1 \<rparr>)"
    unfolding Enabled_eq [OF S W] by (simp add: F not_less)
qed

text \<open>
  The recording sink has no \<^verbatim>\<open>Enabled\<close> method; the gate on it enables an unnamed query
  of severity 10 at level 9. And a gate stacked on the gate with a filter: the factory
  has found the inner gate's \<open>Enabled\<close>, and a named query of severity 15 passes the
  outer level, then the inner level and the inner filter.
\<close>

theorem LogProcessor_is_FilterProcessor_witness:
  "p_Enabled recorder = None
   \<and> var_Severity lab0 = Inr (9, lab0)
   \<and> Enabled 7 (query 10 []) (start plain_gate) =
       Inr (True, \<lparr> gate = plain_gate, calls = [SeverityCall], world = lab0 \<rparr>)
   \<and> filter_p stacked_gate = Some Enabled
   \<and> Enabled 7 (query 15 ''job'')
        \<lparr> gate = stacked_gate, calls = [], world = start filtering_gate \<rparr> =
       Inr (True,
            \<lparr> gate = stacked_gate,
              calls = [SeverityCall, EnabledCall 7 (query 15 ''job'')],
              world = \<lparr> gate = filtering_gate,
                        calls = [SeverityCall, EnabledCall 7 (query 15 ''job'')],
                        world = lab0 \<rparr> \<rparr>)"
proof -
  have h1: "p_Enabled recorder = None"
    by (simp add: recorder_def)
  have h2: "var_Severity lab0 = Inr (9, lab0)"
    by (simp add: var_Severity_def lab0_def)
  note inst = LogProcessor_is_FilterProcessor
      [where d = recorder and s = var_Severity and w = lab0 and minimum = 9 and ?w1.0 = lab0
         and info = 9 and tr = "[]" and ctx = "7 :: nat" and param = "query 10 []"
         and info' = 9 and provider' = None]
  from inst [THEN conjunct2, THEN conjunct2, rule_format, OF h1 h2]
  have a: "Enabled 7 (query 10 []) (start plain_gate) =
       Inr (True, \<lparr> gate = plain_gate, calls = [SeverityCall], world = lab0 \<rparr>)"
    by (simp add: start_def plain_gate_def query_def)
  from inst [THEN conjunct2, THEN conjunct1]
  have b: "filter_p stacked_gate = Some Enabled"
    by (simp add: stacked_gate_def)
  have S: "sev stacked_gate = Some (SeverityInfo 9)"
    by (simp add: stacked_gate_def NewLogProcessor_sev)
  have inner: "Enabled 7 (query 15 ''job'') (start filtering_gate) =
       Inr (True, \<lparr> gate = filtering_gate,
                    calls = [SeverityCall, EnabledCall 7 (query 15 ''job'')], world = lab0 \<rparr>)"
    by (simp add: Enabled_def invoke_def start_def filtering_gate_def NewLogProcessor_sev
          NewLogProcessor_filter var_Severity_def lab0_def query_def named_only_def by_name_def)
  have c: "Enabled 7 (query 15 ''job'')
        \<lparr> gate = stacked_gate, calls = [], world = start filtering_gate \<rparr> =
       Inr (True,
            \<lparr> gate = stacked_gate,
              calls = [SeverityCall, EnabledCall 7 (query 15 ''job'')],
              world = \<lparr> gate = filtering_gate,
                        calls = [SeverityCall, EnabledCall 7 (query 15 ''job'')],
                        world = lab0 \<rparr> \<rparr>)"
    by (simp add: Enabled_def [of _ _ "\<lparr> gate = stacked_gate, calls = [], world = start filtering_gate \<rparr>"]
          invoke_def b S SeverityInfo_def inner)
       (simp add: query_def)
  from h1 h2 a b c show ?thesis by blast
qed

end
